theory Spec2Isabelle
  imports Complex_Main "HOL-Library.Multiset" "HOL-Library.Word"
begin

section \<open>Data model\<close>

text \<open>
  \<^verbatim>\<open>pixels = np.array(img_small).reshape(-1, 3) / 255.0\<close> is an array with one row of
  three channel values per pixel. A row is a triple; the float64 channel values are
  read as real numbers, so every statement below is about exact arithmetic.
  \<^verbatim>\<open>labels\<close> is the integer array \<^verbatim>\<open>db.labels_\<close>; the label \<open>-1\<close> is the noise sentinel.
\<close>

type_synonym point = "real \<times> real \<times> real"

type_synonym summary = "nat \<times> point"

definition red :: "point \<Rightarrow> real" where
  "red p = fst p"

definition green :: "point \<Rightarrow> real" where
  "green p = fst (snd p)"

definition blue :: "point \<Rightarrow> real" where
  "blue p = snd (snd p)"

text \<open>
  What \<^verbatim>\<open>run_dbscan\<close> can raise: whatever the clustering call raises (the type
  parameter), or numpy's IndexError when a boolean mask does not have the length of the
  array it indexes.
\<close>

datatype 'e error = Raised 'e | IndexError

section \<open>The aggregation of \<^verbatim>\<open>run_dbscan\<close>\<close>

text \<open>\<^verbatim>\<open>mask = (labels == k)\<close>\<close>

definition mask_k :: "int list \<Rightarrow> int \<Rightarrow> bool list" where
  "mask_k labels k = map (\<lambda>l. l = k) labels"

text \<open>\<^verbatim>\<open>count = np.sum(mask)\<close>: the number of True entries.\<close>

definition np_sum :: "bool list \<Rightarrow> nat" where
  "np_sum m = length (filter (\<lambda>b. b) m)"

text \<open>
  \<^verbatim>\<open>pixels[mask]\<close>: the rows at the positions where the mask is True, in order; numpy
  raises IndexError when the mask's length is not the number of rows.
\<close>

definition boolean_index :: "point list \<Rightarrow> bool list \<Rightarrow> 'e error + point list" where
  "boolean_index pixels m =
     (if length m \<noteq> length pixels then Inl IndexError
      else Inr (map fst (filter snd (zip pixels m))))"

text \<open>
  \<^verbatim>\<open>.mean(axis=0)\<close>: per column, the sum of the column divided by the number of rows.
  (On no rows numpy gives nan; the loop below only reaches labels that occur.)
\<close>

definition mean_axis0 :: "point list \<Rightarrow> point" where
  "mean_axis0 ps =
     (sum_list (map red ps) / real (length ps),
      sum_list (map green ps) / real (length ps),
      sum_list (map blue ps) / real (length ps))"

text \<open>
  The loop \<^verbatim>\<open>for k in unique_labels: ... results.append((count, avg_color))\<close>, over the
  labels in the order the set yields them.
\<close>

fun results :: "point list \<Rightarrow> int list \<Rightarrow> int list \<Rightarrow> 'e error + summary list" where
  "results pixels labels [] = Inr []"
| "results pixels labels (k # ks) =
     (case boolean_index pixels (mask_k labels k) of
        Inl e \<Rightarrow> Inl e
      | Inr rows \<Rightarrow>
          (case results pixels labels ks of
             Inl e \<Rightarrow> Inl e
           | Inr rest \<Rightarrow> Inr ((np_sum (mask_k labels k), mean_axis0 rows) # rest)))"

text \<open>
  \<^verbatim>\<open>sorted(results, key=lambda x: x[0], reverse=True)\<close>: Python's sort is stable, also
  with \<^verbatim>\<open>reverse=True\<close>, and the key is the count alone. A stable ascending sort on the
  negated count is the same list.
\<close>

definition sorted_by_count :: "summary list \<Rightarrow> summary list" where
  "sorted_by_count rs = sort_key (\<lambda>x. - int (fst x)) rs"

text \<open>
  \<^verbatim>\<open>unique_labels = set(labels) - {-1}\<close> is a Python set, and the order in which the loop
  visits it is the interpreter's. The model takes that order as a parameter
  \<open>set_order\<close>, a function of the label array, and assumes of it only what a set
  guarantees: every label other than \<open>-1\<close> that occurs is visited exactly once.
\<close>

definition iterates :: "(int list \<Rightarrow> int list) \<Rightarrow> int list \<Rightarrow> bool" where
  "iterates set_order labels \<longleftrightarrow>
     distinct (set_order labels) \<and> set (set_order labels) = set labels - {- 1}"

text \<open>
  \<^verbatim>\<open>run_dbscan(pixels, eps, min_samples)\<close>. The clustering itself is the library call
  \<^verbatim>\<open>DBSCAN(eps=eps, min_samples=min_samples).fit(pixels).labels_\<close>, which is not code of
  this program: it is the parameter \<open>DBSCAN\<close>, returning the labels or raising.
\<close>

definition run_dbscan ::
  "(point list \<Rightarrow> real \<Rightarrow> int \<Rightarrow> 'e + int list) \<Rightarrow> (int list \<Rightarrow> int list) \<Rightarrow>
   point list \<Rightarrow> real \<Rightarrow> int \<Rightarrow> 'e error + summary list" where
  "run_dbscan DBSCAN set_order pixels eps min_samples =
     (case DBSCAN pixels eps min_samples of
        Inl e \<Rightarrow> Inl (Raised e)
      | Inr labels \<Rightarrow>
          (case results pixels labels (set_order labels) of
             Inl e \<Rightarrow> Inl e
           | Inr rs \<Rightarrow> Inr (sorted_by_count rs)))"

section \<open>The cached call\<close>

text \<open>
  \<^verbatim>\<open>@st.cache_data\<close> memoises \<^verbatim>\<open>run_dbscan\<close> on its arguments: a call whose arguments
  are in the store returns the stored value and runs nothing; any other call runs the
  function and stores what it returns (nothing when it raises). The store is explicit
  state, keyed by the arguments.
\<close>

type_synonym cache = "(point list \<times> real \<times> int) \<rightharpoonup> summary list"

definition cache_data ::
  "(point list \<Rightarrow> real \<Rightarrow> int \<Rightarrow> 'e error + summary list) \<Rightarrow> cache \<Rightarrow>
   point list \<Rightarrow> real \<Rightarrow> int \<Rightarrow> ('e error + summary list) \<times> cache" where
  "cache_data f store pixels eps min_samples =
     (case store (pixels, eps, min_samples) of
        Some v \<Rightarrow> (Inr v, store)
      | None \<Rightarrow>
          (case f pixels eps min_samples of
             Inl e \<Rightarrow> (Inl e, store)
           | Inr v \<Rightarrow> (Inr v, store((pixels, eps, min_samples) \<mapsto> v))))"

section \<open>The presentation loop\<close>

text \<open>\<^verbatim>\<open>pct = (count / total_pixels) * 100\<close>\<close>

definition pct_of :: "nat \<Rightarrow> nat \<Rightarrow> real" where
  "pct_of cnt total_pixels = (real cnt / real total_pixels) * 100"

text \<open>Python's \<^verbatim>\<open>int(x)\<close> on a float: truncation toward zero.\<close>

definition py_int :: "real \<Rightarrow> int" where
  "py_int x = (if x < 0 then \<lceil>x\<rceil> else \<lfloor>x\<rfloor>)"

text \<open>\<^verbatim>\<open>r, g, b = (int(c * 255) for c in color)\<close>\<close>

definition rgb_of :: "point \<Rightarrow> int \<times> int \<times> int" where
  "rgb_of color = (py_int (red color * 255), py_int (green color * 255), py_int (blue color * 255))"

text \<open>
  The format field \<^verbatim>\<open>{:02x}\<close>: the lowercase hexadecimal digits of the absolute value,
  a minus sign first when the number is negative, and zeros between sign and digits up to
  a total width of two. A wider number is printed in full.
\<close>

definition hex_digit :: "nat \<Rightarrow> char" where
  "hex_digit d = ''0123456789abcdef'' ! d"

fun hex_digits :: "nat \<Rightarrow> string" where
  "hex_digits n = (if n < 16 then [hex_digit n] else hex_digits (n div 16) @ [hex_digit (n mod 16)])"

definition format_02x :: "int \<Rightarrow> string" where
  "format_02x n =
     (let sign = (if n < 0 then ''-'' else []); digits = hex_digits (nat \<bar>n\<bar>)
      in sign @ replicate (2 - length sign - length digits) (CHR ''0'') @ digits)"

text \<open>\<^verbatim>\<open>hex_c = '#{:02x}{:02x}{:02x}'.format(r, g, b)\<close>\<close>

definition hex_c :: "int \<times> int \<times> int \<Rightarrow> string" where
  "hex_c rgb = (case rgb of (r, g, b) \<Rightarrow> ''#'' @ format_02x r @ format_02x g @ format_02x b)"

text \<open>
  One rendered card: the grid column it goes to, the colour string \<^verbatim>\<open>hex_c\<close> of its
  preview (printed once more in upper case), the three integers of its RGB line and the
  percentage (printed with one decimal).
\<close>

record card =
  column :: nat
  hex :: string
  rgb :: "int \<times> int \<times> int"
  pct :: real

text \<open>
  The loop \<^verbatim>\<open>for count, color in color_counts\<close> (the count is \<open>cnt\<close> here): an entry
  under \<^verbatim>\<open>min_percentage\<close> is skipped by \<^verbatim>\<open>continue\<close>, every other entry is rendered in
  column \<^verbatim>\<open>valid_count % cols_per_row\<close> and counted.
\<close>

fun cards :: "summary list \<Rightarrow> nat \<Rightarrow> real \<Rightarrow> nat \<Rightarrow> nat \<Rightarrow> card list" where
  "cards [] total_pixels min_percentage cols_per_row valid_count = []"
| "cards ((cnt, color) # rest) total_pixels min_percentage cols_per_row valid_count =
     (if pct_of cnt total_pixels < min_percentage
      then cards rest total_pixels min_percentage cols_per_row valid_count
      else \<lparr>column = valid_count mod cols_per_row, hex = hex_c (rgb_of color),
             rgb = rgb_of color, pct = pct_of cnt total_pixels\<rparr>
           # cards rest total_pixels min_percentage cols_per_row (valid_count + 1))"

text \<open>
  What the page shows for an uploaded image, once it is resized and turned into
  \<^verbatim>\<open>pixels\<close>: the heading with the number of clusters and the cards (with the warning when
  every card was filtered out), or the "no clusters" message, or the message of the
  exception caught by \<^verbatim>\<open>except Exception\<close>.
\<close>

datatype 'e view =
  Found nat "card list" bool
| No_clusters
| Error_shown "'e error"

definition page ::
  "(point list \<Rightarrow> real \<Rightarrow> int \<Rightarrow> 'e + int list) \<Rightarrow> (int list \<Rightarrow> int list) \<Rightarrow> cache \<Rightarrow>
   point list \<Rightarrow> real \<Rightarrow> int \<Rightarrow> real \<Rightarrow> nat \<Rightarrow> 'e view \<times> cache" where
  "page DBSCAN set_order store pixels eps min_samples min_percentage cols_per_row =
     (case cache_data (run_dbscan DBSCAN set_order) store pixels eps min_samples of
        (Inl e, store') \<Rightarrow> (Error_shown e, store')
      | (Inr color_counts, store') \<Rightarrow>
          (if color_counts \<noteq> []
           then (let shown = cards color_counts (length pixels) min_percentage cols_per_row 0
                 in (Found (length color_counts) shown (shown = []), store'))
           else (No_clusters, store')))"

text \<open>
  The stores a running page can hold: the empty one, and the one left by any call of
  \<^verbatim>\<open>run_dbscan\<close> from a store it can hold.
\<close>

inductive reachable ::
  "(point list \<Rightarrow> real \<Rightarrow> int \<Rightarrow> 'e + int list) \<Rightarrow> (int list \<Rightarrow> int list) \<Rightarrow> cache \<Rightarrow> bool"
  for DBSCAN set_order where
  start: "reachable DBSCAN set_order Map.empty"
| call: "reachable DBSCAN set_order store \<Longrightarrow>
         reachable DBSCAN set_order
           (snd (cache_data (run_dbscan DBSCAN set_order) store pixels eps min_samples))"

section \<open>Reference notions the properties are stated with\<close>

text \<open>The positions of the points that carry label \<open>k\<close>.\<close>

definition members :: "int list \<Rightarrow> int \<Rightarrow> nat set" where
  "members labels k = {i. i < length labels \<and> labels ! i = k}"

text \<open>The arithmetic mean of one channel over a set of positions: channel sum by count.\<close>

definition channel_mean :: "(point \<Rightarrow> real) \<Rightarrow> point list \<Rightarrow> nat set \<Rightarrow> real" where
  "channel_mean ch pixels I = (\<Sum>i\<in>I. ch (pixels ! i)) / real (card I)"

definition centroid :: "point list \<Rightarrow> int list \<Rightarrow> int \<Rightarrow> point" where
  "centroid pixels labels k =
     (channel_mean red pixels (members labels k),
      channel_mean green pixels (members labels k),
      channel_mean blue pixels (members labels k))"

text \<open>A channel value, or a whole point, within the unit interval.\<close>

definition unit_point :: "point \<Rightarrow> bool" where
  "unit_point p \<longleftrightarrow> 0 \<le> red p \<and> red p \<le> 1 \<and> 0 \<le> green p \<and> green p \<le> 1 \<and> 0 \<le> blue p \<and> blue p \<le> 1"

text \<open>Lexicographic order on the channels of two centroids.\<close>

definition lex_le :: "point \<Rightarrow> point \<Rightarrow> bool" where
  "lex_le p q \<longleftrightarrow>
     red p < red q \<or> (red p = red q \<and> (green p < green q \<or> (green p = green q \<and> blue p \<le> blue q)))"



text \<open>
  One iteration order that a set allows: ascending labels. It stands for the
  interpreter's order where a statement is evaluated on concrete input.
\<close>

definition ascending :: "int list \<Rightarrow> int list" where
  "ascending labels = sort (remdups (filter (\<lambda>l. l \<noteq> - 1) labels))"

text \<open>
  The claimed tie-break, for a given order on centroids: whenever two entries have the
  same count, the earlier one comes first in that order.
\<close>

definition ties_by_centroid :: "(point \<Rightarrow> point \<Rightarrow> bool) \<Rightarrow> summary list \<Rightarrow> bool" where
  "ties_by_centroid ord out \<longleftrightarrow>
     sorted_wrt (\<lambda>x y. fst x = fst y \<longrightarrow> ord (snd x) (snd y)) out"


text \<open>
  A store is sound for a function when every value it holds is what the function
  returns on the key's arguments.
\<close>

definition sound :: "(point list \<Rightarrow> real \<Rightarrow> int \<Rightarrow> 'e error + summary list) \<Rightarrow> cache \<Rightarrow> bool" where
  "sound f store \<longleftrightarrow>
     (\<forall>pixels eps min_samples v.
        store (pixels, eps, min_samples) = Some v \<longrightarrow> f pixels eps min_samples = Inr v)"

text \<open>
  \<^verbatim>\<open>np.array(img_small).reshape(-1, 3) / 255.0\<close>: the resized RGB image has one byte per
  channel, and every byte is divided by 255.
\<close>

definition pixels_of :: "(8 word \<times> 8 word \<times> 8 word) list \<Rightarrow> point list" where
  "pixels_of img =
     map (\<lambda>(r, g, b). (real (unat r) / 255, real (unat g) / 255, real (unat b) / 255)) img"

section \<open>A sample run\<close>

text \<open>
  Five pixels: two black, two white, one mid grey. With \<^verbatim>\<open>eps = 0.05\<close> and
  \<^verbatim>\<open>min_samples = 2\<close> DBSCAN makes the two black pixels cluster 0 and the two white
  pixels cluster 1 (each has its twin at distance 0, so both are core points), and
  leaves the grey pixel as noise. \<open>sample_DBSCAN\<close> stands for the library on this
  input.
\<close>

definition sample_pixels :: "point list" where
  "sample_pixels = [(0, 0, 0), (0, 0, 0), (1, 1, 1), (1, 1, 1), (1/2, 1/2, 1/2)]"

definition sample_labels :: "int list" where
  "sample_labels = [0, 0, 1, 1, - 1]"

definition sample_DBSCAN :: "point list \<Rightarrow> real \<Rightarrow> int \<Rightarrow> unit + int list" where
  "sample_DBSCAN pixels eps min_samples = Inr sample_labels"

section \<open>Aggregation: counts and centroids\<close>

declare hex_digits.simps [simp del]

lemma boolean_index_ok:
  "length labels = length pixels \<Longrightarrow>
   boolean_index pixels (mask_k labels k) = Inr (map fst (filter snd (zip pixels (mask_k labels k))))"
  by (simp add: boolean_index_def mask_k_def)

lemma results_ok:
  "length labels = length pixels \<Longrightarrow>
   results pixels labels ks =
     Inr (map (\<lambda>k. (np_sum (mask_k labels k),
                     mean_axis0 (map fst (filter snd (zip pixels (mask_k labels k)))))) ks)"
  by (induction ks) (simp_all add: boolean_index_ok)

lemma np_sum_mask: "np_sum (mask_k labels k) = length (filter (\<lambda>l. l = k) labels)"
  by (induction labels) (simp_all add: np_sum_def mask_k_def)




lemma members_nth:
  "length labels = length pixels \<Longrightarrow>
   map fst (filter snd (zip pixels (mask_k labels k))) =
   map ((!) pixels) (filter (\<lambda>i. labels ! i = k) [0..<length labels])"
proof (induction labels arbitrary: pixels rule: rev_induct)
  case Nil
  then show ?case by (simp add: mask_k_def)
next
  case (snoc l ls)
  then obtain ps p where px: "pixels = ps @ [p]" and len: "length ls = length ps"
    by (cases pixels rule: rev_cases) auto
  have ih: "map fst (filter snd (zip ps (mask_k ls k))) =
            map ((!) ps) (filter (\<lambda>i. ls ! i = k) [0..<length ls])"
    using snoc.IH len by simp
  have a: "filter (\<lambda>i. (ls @ [l]) ! i = k) [0..<length ls] = filter (\<lambda>i. ls ! i = k) [0..<length ls]"
    by (rule filter_cong) (auto simp: nth_append)
  have b: "map ((!) (ps @ [p])) (filter (\<lambda>i. ls ! i = k) [0..<length ls]) =
           map ((!) ps) (filter (\<lambda>i. ls ! i = k) [0..<length ls])"
    using len by (auto simp: nth_append)
  have lhs: "map fst (filter snd (zip (ps @ [p]) (mask_k (ls @ [l]) k))) =
             map fst (filter snd (zip ps (mask_k ls k))) @ (if l = k then [p] else [])"
    using len by (simp add: mask_k_def)
  have rhs: "map ((!) (ps @ [p])) (filter (\<lambda>i. (ls @ [l]) ! i = k) [0..<length (ls @ [l])]) =
             map ((!) ps) (filter (\<lambda>i. ls ! i = k) [0..<length ls]) @ (if l = k then [p] else [])"
  proof -
    have "filter (\<lambda>i. (ls @ [l]) ! i = k) [0..<length (ls @ [l])] =
          filter (\<lambda>i. ls ! i = k) [0..<length ls] @ (if l = k then [length ls] else [])"
      using a by simp
    then show ?thesis
      using b len by (simp add: nth_append)
  qed
  show ?case
    unfolding px lhs rhs ih ..
qed

lemma set_positions: "set (filter (\<lambda>i. labels ! i = k) [0..<length labels]) = members labels k"
  by (auto simp: members_def)

lemma length_positions:
  "length (filter (\<lambda>i. labels ! i = k) [0..<length labels]) = card (members labels k)"
proof -
  have "card (set (filter (\<lambda>i. labels ! i = k) [0..<length labels])) =
        length (filter (\<lambda>i. labels ! i = k) [0..<length labels])"
    by (rule distinct_card) simp
  then show ?thesis
    by (simp only: set_positions)
qed

lemma card_members: "card (members labels k) = length (filter (\<lambda>l. l = k) labels)"
proof -
  have "card (members labels k) =
        length (map ((!) labels) (filter (\<lambda>i. labels ! i = k) [0..<length labels]))"
    by (simp only: length_map length_positions)
  also have "map ((!) labels) (filter (\<lambda>i. labels ! i = k) [0..<length labels]) =
             filter (\<lambda>l. l = k) (map ((!) labels) [0..<length labels])"
    by (simp add: filter_map comp_def)
  also have "map ((!) labels) [0..<length labels] = labels"
    by (rule map_nth)
  finally show ?thesis .
qed

lemma channel_sum_members:
  "length labels = length pixels \<Longrightarrow>
   sum_list (map ch (map fst (filter snd (zip pixels (mask_k labels k))))) =
   (\<Sum>i\<in>members labels k. ch (pixels ! i))"
proof -
  assume len: "length labels = length pixels"
  have "sum_list (map ch (map fst (filter snd (zip pixels (mask_k labels k))))) =
        sum_list (map (\<lambda>i. ch (pixels ! i)) (filter (\<lambda>i. labels ! i = k) [0..<length labels]))"
    by (simp add: members_nth [OF len] comp_def)
  also have "\<dots> = (\<Sum>i\<in>set (filter (\<lambda>i. labels ! i = k) [0..<length labels]). ch (pixels ! i))"
    by (rule sum_list_distinct_conv_sum_set) simp
  finally show ?thesis
    by (simp only: set_positions)
qed

lemma length_members:
  "length labels = length pixels \<Longrightarrow>
   length (map fst (filter snd (zip pixels (mask_k labels k)))) = card (members labels k)"
proof -
  assume len: "length labels = length pixels"
  show ?thesis
    unfolding members_nth [OF len] length_map by (rule length_positions)
qed

lemma mean_axis0_centroid:
  "length labels = length pixels \<Longrightarrow>
   mean_axis0 (map fst (filter snd (zip pixels (mask_k labels k)))) = centroid pixels labels k"
  unfolding mean_axis0_def centroid_def channel_mean_def
  by (simp only: channel_sum_members length_members)

lemma results_summaries:
  "length labels = length pixels \<Longrightarrow>
   results pixels labels ks =
     Inr (map (\<lambda>k. (card (members labels k), centroid pixels labels k)) ks)"
  by (simp add: results_ok np_sum_mask card_members mean_axis0_centroid)

lemma run_dbscan_ok:
  "DBSCAN pixels eps min_samples = Inr labels \<Longrightarrow> length labels = length pixels \<Longrightarrow>
   run_dbscan DBSCAN set_order pixels eps min_samples =
     Inr (sorted_by_count
           (map (\<lambda>k. (card (members labels k), centroid pixels labels k)) (set_order labels)))"
  by (simp add: run_dbscan_def results_summaries)



lemma iterates_sample: "iterates ascending sample_labels"
  by (auto simp: iterates_def ascending_def sample_labels_def)

lemma sample_call: "sample_DBSCAN sample_pixels (1/20) 2 = Inr sample_labels"
  by (simp add: sample_DBSCAN_def)

lemma sample_length: "length sample_labels = length sample_pixels"
  by (simp add: sample_labels_def sample_pixels_def)





lemma channel_mean_unit:
  assumes "finite I" and "\<forall>i\<in>I. 0 \<le> ch (pixels ! i) \<and> ch (pixels ! i) \<le> 1"
  shows "0 \<le> channel_mean ch pixels I \<and> channel_mean ch pixels I \<le> 1"
proof -
  have lo: "0 \<le> (\<Sum>i\<in>I. ch (pixels ! i))"
    using assms by (simp add: sum_nonneg)
  have "(\<Sum>i\<in>I. ch (pixels ! i)) \<le> of_nat (card I) * 1"
    by (rule sum_bounded_above) (use assms in simp)
  then have hi: "(\<Sum>i\<in>I. ch (pixels ! i)) \<le> real (card I)"
    by simp
  show ?thesis
    unfolding channel_mean_def using lo hi
    by (cases "card I = 0") (simp_all add: divide_le_eq)
qed

lemma centroid_unit:
  assumes len: "length labels = length pixels" and unit: "\<forall>p\<in>set pixels. unit_point p"
  shows "unit_point (centroid pixels labels k)"
proof -
  have fin: "finite (members labels k)"
    by (simp add: members_def)
  have mem: "\<forall>i\<in>members labels k. unit_point (pixels ! i)"
    using unit len by (simp add: members_def)
  have r: "0 \<le> channel_mean red pixels (members labels k) \<and> channel_mean red pixels (members labels k) \<le> 1"
    by (rule channel_mean_unit [OF fin]) (use mem in \<open>simp add: unit_point_def\<close>)
  have g: "0 \<le> channel_mean green pixels (members labels k) \<and> channel_mean green pixels (members labels k) \<le> 1"
    by (rule channel_mean_unit [OF fin]) (use mem in \<open>simp add: unit_point_def\<close>)
  have b: "0 \<le> channel_mean blue pixels (members labels k) \<and> channel_mean blue pixels (members labels k) \<le> 1"
    by (rule channel_mean_unit [OF fin]) (use mem in \<open>simp add: unit_point_def\<close>)
  show ?thesis
    using r g b by (simp add: unit_point_def centroid_def red_def green_def blue_def)
qed

lemma pixels_of_unit: "\<forall>p\<in>set (pixels_of img). unit_point p"
proof -
  have "0 \<le> real (unat w) / 255 \<and> real (unat w) / 255 \<le> 1" for w :: "8 word"
  proof -
    have "unat w \<le> 255"
      using unsigned_less [of w, where ?'a = nat] by simp
    then have "real (unat w) \<le> real 255"
      by (rule of_nat_mono)
    moreover have "0 \<le> real (unat w)"
      by (rule of_nat_0_le_iff)
    ultimately show ?thesis
      by simp
  qed
  then show ?thesis
    by (auto simp: pixels_of_def unit_point_def red_def green_def blue_def)
qed

lemma sample_unit: "\<forall>p\<in>set sample_pixels. unit_point p"
  by (simp add: sample_pixels_def unit_point_def red_def green_def blue_def)

text \<open>
  Claim C7 (centroid bounds). When every channel value of every input point lies in
  \<open>[0, 1]\<close> and the clustering call returns one label per point, every channel value of
  every centroid \<^verbatim>\<open>run_dbscan\<close> returns lies in \<open>[0, 1]\<close>. (The array the page builds
  satisfies the hypothesis: \<open>pixels_of_unit\<close>.)
\<close>

theorem centroid_bounds:
  assumes lib: "DBSCAN pixels eps min_samples = Inr labels"
    and len: "length labels = length pixels"
    and it: "iterates set_order labels"
    and unit: "\<forall>p\<in>set pixels. unit_point p"
  shows "\<exists>out. run_dbscan DBSCAN set_order pixels eps min_samples = Inr out \<and>
           (\<forall>s\<in>set out. unit_point (snd s))"
proof -
  let ?f = "\<lambda>k. (card (members labels k), centroid pixels labels k)"
  have run: "run_dbscan DBSCAN set_order pixels eps min_samples =
             Inr (sorted_by_count (map ?f (set_order labels)))"
    using lib len by (simp add: run_dbscan_def results_summaries)
  have "\<forall>s\<in>set (sorted_by_count (map ?f (set_order labels))). unit_point (snd s)"
    using centroid_unit [OF len unit] by (auto simp: sorted_by_count_def)
  with run show ?thesis by simp
qed

theorem centroid_bounds_witness:
  "sample_DBSCAN sample_pixels (1/20) 2 = Inr sample_labels \<and>
   length sample_labels = length sample_pixels \<and> iterates ascending sample_labels \<and>
   list_all unit_point sample_pixels \<and>
   (\<exists>out. run_dbscan sample_DBSCAN ascending sample_pixels (1/20) 2 = Inr out \<and>
      list_all (\<lambda>s. unit_point (snd s)) out)"
  unfolding list_all_iff
  by (intro conjI centroid_bounds [of sample_DBSCAN sample_pixels "1/20" 2 sample_labels ascending]
      sample_call sample_length iterates_sample sample_unit)

section \<open>Ranking\<close>

lemma sorted_by_count_desc: "sorted_wrt (\<lambda>x y. fst y \<le> fst x) (sorted_by_count rs)"
proof -
  have "sorted (map (\<lambda>x. - int (fst x)) (sort_key (\<lambda>x. - int (fst x)) rs))"
    by (rule sorted_sort_key)
  then show ?thesis
    by (simp add: sorted_by_count_def sorted_wrt_map)
qed

lemma sorted_by_count_stable:
  "filter (\<lambda>s. fst s = c) (sorted_by_count rs) = filter (\<lambda>s. fst s = c) rs"
proof -
  have "filter (\<lambda>y. - int (fst y) = - int c) (sort_key (\<lambda>x. - int (fst x)) rs) =
        filter (\<lambda>y. - int (fst y) = - int c) rs"
    by (rule sort_key_stable)
  then show ?thesis
    by (simp add: sorted_by_count_def)
qed

text \<open>
  Claim C2 (ranking), as amended. When the clustering call returns one label per point,
  the list \<^verbatim>\<open>run_dbscan\<close> returns is sorted in descending order of count, and the entries
  of any one count stand in the order in which the aggregation loop produced them, which
  is the order in which the label set was iterated: the sort is stable and its key is the
  count alone, so the centroid values play no part in the order.
\<close>

theorem ranked_by_count:
  assumes lib: "DBSCAN pixels eps min_samples = Inr labels"
    and len: "length labels = length pixels"
    and it: "iterates set_order labels"
  shows "\<exists>out. run_dbscan DBSCAN set_order pixels eps min_samples = Inr out \<and>
           sorted_wrt (\<lambda>x y. fst y \<le> fst x) out \<and>
           (\<forall>c. filter (\<lambda>s. fst s = c) out =
                filter (\<lambda>s. fst s = c)
                  (map (\<lambda>k. (card (members labels k), centroid pixels labels k)) (set_order labels)))"
proof -
  let ?rs = "map (\<lambda>k. (card (members labels k), centroid pixels labels k)) (set_order labels)"
  have run: "run_dbscan DBSCAN set_order pixels eps min_samples = Inr (sorted_by_count ?rs)"
    using lib len by (simp add: run_dbscan_def results_summaries)
  show ?thesis
    unfolding run using sorted_by_count_desc [of ?rs] sorted_by_count_stable [of _ ?rs] by simp
qed

theorem ranked_by_count_witness:
  "sample_DBSCAN sample_pixels (1/20) 2 = Inr sample_labels \<and>
   length sample_labels = length sample_pixels \<and> iterates ascending sample_labels \<and>
   (\<exists>out. run_dbscan sample_DBSCAN ascending sample_pixels (1/20) 2 = Inr out \<and>
      sorted_wrt (\<lambda>x y. fst y \<le> fst x) out \<and>
      (\<forall>c. filter (\<lambda>s. fst s = c) out =
           filter (\<lambda>s. fst s = c)
             (map (\<lambda>k. (card (members sample_labels k), centroid sample_pixels sample_labels k)) (ascending sample_labels))))"
  by (intro conjI ranked_by_count sample_call sample_length iterates_sample)

lemma remdups_replicate_append:
  "0 < n \<Longrightarrow> x \<notin> set ys \<Longrightarrow> remdups (replicate n x @ ys) = x # remdups ys"
proof (induction n)
  case 0
  then show ?case by simp
next
  case (Suc n)
  then show ?case by (cases "n = 0") simp_all
qed

lemma ascending_two_blocks: "0 < n \<Longrightarrow> ascending (replicate n 0 @ replicate n 1) = [0, 1]"
proof -
  assume n: "0 < n"
  have "remdups (replicate n (1::int) @ []) = 1 # remdups []"
    using n by (intro remdups_replicate_append) simp_all
  moreover have "remdups (replicate n (0::int) @ replicate n 1) = 0 # remdups (replicate n 1)"
    using n by (intro remdups_replicate_append) simp_all
  ultimately show ?thesis
    by (simp add: ascending_def)
qed

text \<open>
  A run on \<open>n\<close> pixels of one colour followed by \<open>n\<close> pixels of another, labelled
  cluster 0 and cluster 1: two summaries of count \<open>n\<close>, in the order of the labels.
\<close>

lemma two_blocks:
  assumes "0 < n"
  shows "run_dbscan
           ((\<lambda>_ _ _. Inr (replicate n 0 @ replicate n 1)) :: point list \<Rightarrow> real \<Rightarrow> int \<Rightarrow> unit + int list)
           ascending (replicate n p @ replicate n q) eps min_samples
         = Inr [(n, p), (n, q)]"
  using assms
  by (cases p; cases q)
     (simp add: run_dbscan_def boolean_index_def mask_k_def np_sum_def mean_axis0_def
        red_def green_def blue_def sorted_by_count_def ascending_two_blocks sum_list_replicate)

text \<open>
  The claim as the specification states it asks for ties to be ordered by centroid,
  lexicographically on the channels. Two runs at the page's default settings
  (\<^verbatim>\<open>eps = 0.08\<close>, \<^verbatim>\<open>min_samples = 60\<close>, processing size 150, so 22500 pixels) show that
  the code does not do that. The first image is black in its upper half and white in its
  lower half, the second is white above and black below. In both, each half is one
  cluster of 11250 identical points, and DBSCAN numbers the clusters in input order, so
  the labels are 11250 times 0 followed by 11250 times 1. The first run lists black
  before white, the second white before black: the same two summaries in both orders, so
  in neither the ascending nor the descending lexicographic order of their centroids.
\<close>

theorem tie_break_counterexample:
  "run_dbscan
     ((\<lambda>_ _ _. Inr (replicate 11250 0 @ replicate 11250 1)) :: point list \<Rightarrow> real \<Rightarrow> int \<Rightarrow> unit + int list)
     ascending (replicate 11250 (0, 0, 0) @ replicate 11250 (1, 1, 1)) (8/100) 60
     = Inr [(11250, (0, 0, 0)), (11250, (1, 1, 1))] \<and>
   run_dbscan
     ((\<lambda>_ _ _. Inr (replicate 11250 0 @ replicate 11250 1)) :: point list \<Rightarrow> real \<Rightarrow> int \<Rightarrow> unit + int list)
     ascending (replicate 11250 (1, 1, 1) @ replicate 11250 (0, 0, 0)) (8/100) 60
     = Inr [(11250, (1, 1, 1)), (11250, (0, 0, 0))] \<and>
   \<not> ties_by_centroid lex_le [(11250, (1, 1, 1)), (11250, (0, 0, 0))] \<and>
   \<not> ties_by_centroid (\<lambda>p q. lex_le q p) [(11250, (0, 0, 0)), (11250, (1, 1, 1))]"
  by (simp add: two_blocks ties_by_centroid_def lex_le_def red_def green_def blue_def)

section \<open>The cache and the page\<close>

lemma sound_empty: "sound f Map.empty"
  by (simp add: sound_def)

lemma sound_cache_data: "sound f store \<Longrightarrow> sound f (snd (cache_data f store pixels eps min_samples))"
  by (auto simp: sound_def cache_data_def split: option.splits sum.splits)

lemma fst_cache_data: "sound f store \<Longrightarrow> fst (cache_data f store pixels eps min_samples) = f pixels eps min_samples"
  by (auto simp: sound_def cache_data_def split: option.splits sum.splits)

lemma reachable_sound: "reachable DBSCAN set_order store \<Longrightarrow> sound (run_dbscan DBSCAN set_order) store"
  by (induction rule: reachable.induct) (simp_all add: sound_empty sound_cache_data)

lemma fst_page:
  assumes "reachable DBSCAN set_order store"
  shows "fst (page DBSCAN set_order store pixels eps min_samples min_percentage cols_per_row) =
     (case run_dbscan DBSCAN set_order pixels eps min_samples of
        Inl e \<Rightarrow> Error_shown e
      | Inr color_counts \<Rightarrow>
          if color_counts \<noteq> []
          then Found (length color_counts)
                 (cards color_counts (length pixels) min_percentage cols_per_row 0)
                 (cards color_counts (length pixels) min_percentage cols_per_row 0 = [])
          else No_clusters)"
proof -
  have "fst (cache_data (run_dbscan DBSCAN set_order) store pixels eps min_samples) =
        run_dbscan DBSCAN set_order pixels eps min_samples"
    by (rule fst_cache_data [OF reachable_sound [OF assms]])
  then show ?thesis
    by (cases "cache_data (run_dbscan DBSCAN set_order) store pixels eps min_samples")
       (auto simp: page_def Let_def split: sum.splits)
qed

text \<open>
  What the code adds to the clustering call when the call raises, and when it returns no
  labels: an exception of the call passes through \<^verbatim>\<open>run_dbscan\<close> unchanged, before any
  aggregation, is not stored, and ends as the page's error message; on no labels the
  result is the empty list and the page shows its "no clusters" message.
\<close>

lemma run_dbscan_raises:
  "DBSCAN pixels eps min_samples = Inl e \<Longrightarrow>
   run_dbscan DBSCAN set_order pixels eps min_samples = Inl (Raised e)"
  by (simp add: run_dbscan_def)

lemma page_raises:
  assumes "reachable DBSCAN set_order store" and "DBSCAN pixels eps min_samples = Inl e"
  shows "page DBSCAN set_order store pixels eps min_samples min_percentage cols_per_row =
         (Error_shown (Raised e), store)"
proof -
  have s: "sound (run_dbscan DBSCAN set_order) store"
    by (rule reachable_sound [OF assms(1)])
  have r: "run_dbscan DBSCAN set_order pixels eps min_samples = Inl (Raised e)"
    using assms(2) by (simp add: run_dbscan_def)
  have "store (pixels, eps, min_samples) = None"
  proof (cases "store (pixels, eps, min_samples)")
    case None
    then show ?thesis .
  next
    case (Some v)
    then have "run_dbscan DBSCAN set_order pixels eps min_samples = Inr v"
      using s by (simp add: sound_def)
    then show ?thesis
      using r by simp
  qed
  then show ?thesis
    using r by (simp add: page_def cache_data_def)
qed

lemma run_dbscan_no_labels:
  "DBSCAN pixels eps min_samples = Inr [] \<Longrightarrow> set_order [] = [] \<Longrightarrow>
   run_dbscan DBSCAN set_order pixels eps min_samples = Inr []"
  by (simp add: run_dbscan_def sorted_by_count_def)



section \<open>Percentages and the threshold\<close>






section \<open>Colour formatting\<close>











section \<open>The sample run, evaluated\<close>

text \<open>
  The formatter on one colour, and the sample run from the pixels to the cards: two
  clusters of two points out of five, so each card reads 40 percent, not 50; the noise
  point counts in the total.
\<close>

lemma sample_hex: "hex_c (rgb_of (1/2, 0, 1)) = ''#7f00ff''"
  by (simp add: hex_c_def rgb_of_def py_int_def red_def green_def blue_def format_02x_def
      hex_digits.simps hex_digit_def)

lemma sample_run:
  "run_dbscan sample_DBSCAN ascending sample_pixels (1/20) 2 = Inr [(2, (0, 0, 0)), (2, (1, 1, 1))]"
  by (simp add: run_dbscan_def sample_DBSCAN_def sample_labels_def sample_pixels_def
      boolean_index_def mask_k_def np_sum_def mean_axis0_def red_def green_def blue_def
      sorted_by_count_def ascending_def)

lemma sample_page:
  "fst (page sample_DBSCAN ascending Map.empty sample_pixels (1/20) 2 (1/2) 3) =
   Found 2
     [\<lparr>column = 0, hex = ''#000000'', rgb = (0, 0, 0), pct = 40\<rparr>,
      \<lparr>column = 1, hex = ''#ffffff'', rgb = (255, 255, 255), pct = 40\<rparr>]
     False"
proof -
  have "fst (page sample_DBSCAN ascending Map.empty sample_pixels (1/20) 2 (1/2) 3) =
        Found 2 (cards [(2, (0, 0, 0)), (2, (1, 1, 1))] (length sample_pixels) (1/2) 3 0)
          (cards [(2, (0, 0, 0)), (2, (1, 1, 1))] (length sample_pixels) (1/2) 3 0 = [])"
    by (simp add: fst_page [OF reachable.start] sample_run)
  then show ?thesis
    by (simp add: sample_pixels_def pct_of_def rgb_of_def py_int_def red_def green_def blue_def
        hex_c_def format_02x_def hex_digits.simps hex_digit_def)
qed

end
